theory Spec2Isabelle
  imports Main
begin

section \<open>Constants of main.c\<close>

text \<open>
  A C string is represented by the list of its characters before the terminating NUL, so
  \<open>strlen\<close> is \<open>length\<close>. A buffer is the list of its bytes, terminator and padding
  included. \<open>size_t\<close> values are natural numbers: every subtraction of the source is
  between values whose difference is non-negative (see \<open>station_loop\<close>), so the
  unsigned wrap-around never comes into play.
\<close>

definition NUL :: char where
  "NUL = CHR 0x00"

definition URL_PREFIX_TAF :: string where
  "URL_PREFIX_TAF = ''http://tgftp.nws.noaa.gov/data/forecasts/taf/stations/''"

definition URL_PREFIX_DECODED :: string where
  "URL_PREFIX_DECODED = ''http://tgftp.nws.noaa.gov/data/observations/metar/decoded/''"

definition URL_PREFIX_METAR :: string where
  "URL_PREFIX_METAR = ''http://tgftp.nws.noaa.gov/data/observations/metar/stations/''"

definition URL_EXTENSION :: string where
  "URL_EXTENSION = ''.TXT''"

text \<open>\<open>sizeof\<close> of a string literal counts its characters and the terminator.\<close>

definition sizeof_lit :: "string \<Rightarrow> nat" where
  "sizeof_lit s = length s + 1"

definition strlen :: "string \<Rightarrow> nat" where
  "strlen s = length s"

definition STATION_ID_LEN :: nat where
  "STATION_ID_LEN = 4"

definition DEFAULT_STATION_PREFIX :: string where
  "DEFAULT_STATION_PREFIX = ''K''"

definition DEFAULT_STATION_PREFIX_LEN :: nat where
  "DEFAULT_STATION_PREFIX_LEN = sizeof_lit DEFAULT_STATION_PREFIX - 1"

definition HTTP_RESPONSE_NOT_FOUND :: int where
  "HTTP_RESPONSE_NOT_FOUND = 404"

definition LONGEST_URL_PREFIX :: string where
  "LONGEST_URL_PREFIX = URL_PREFIX_METAR"

definition URL_BUFFER_LEN :: nat where
  "URL_BUFFER_LEN =
     (sizeof_lit LONGEST_URL_PREFIX - 1) + STATION_ID_LEN + (sizeof_lit URL_EXTENSION - 1) + 1"

datatype urlType = METAR | TAF | Decoded

section \<open>The C library functions used by formURL\<close>

text \<open>
  The program never calls \<open>setlocale\<close>, so \<open>isalnum\<close> and \<open>toupper\<close> are those of the
  "C" locale: the ASCII digits and letters. A byte above 127 is not alphanumeric there.
\<close>

definition isalnum :: "char \<Rightarrow> bool" where
  "isalnum c =
     (let n = (of_char c :: nat)
      in (48 \<le> n \<and> n \<le> 57) \<or> (65 \<le> n \<and> n \<le> 90) \<or> (97 \<le> n \<and> n \<le> 122))"

definition toupper :: "char \<Rightarrow> char" where
  "toupper c =
     (let n = (of_char c :: nat)
      in if 97 \<le> n \<and> n \<le> 122 then char_of (n - 32) else c)"

text \<open>
  Writes go through the buffer's real extent: a write past the end of the array is a
  fault of the model, as is a failed \<open>assert\<close> (the Makefile does not define NDEBUG).
\<close>

datatype fault = AssertionFailed | OutOfBounds

definition store :: "char list \<Rightarrow> nat \<Rightarrow> char \<Rightarrow> fault + char list" where
  "store buf i c = (if i < length buf then Inr (buf[i := c]) else Inl OutOfBounds)"

definition write_bytes :: "char list \<Rightarrow> nat \<Rightarrow> char list \<Rightarrow> fault + char list" where
  "write_bytes buf off bs =
     (if off + length bs \<le> length buf
      then Inr (take off buf @ bs @ drop (off + length bs) buf)
      else Inl OutOfBounds)"

text \<open>
  \<open>strncpy (buf + off, src, n)\<close> writes exactly \<open>n\<close> bytes: the first \<open>n\<close> characters of
  \<open>src\<close>, then NUL padding when \<open>src\<close> is shorter than \<open>n\<close>.
  \<open>memcpy (buf + off, src, n)\<close> copies \<open>n\<close> bytes of the literal \<open>src\<close>.
\<close>

definition strncpy :: "char list \<Rightarrow> nat \<Rightarrow> string \<Rightarrow> nat \<Rightarrow> fault + char list" where
  "strncpy buf off src n = write_bytes buf off (take n src @ replicate (n - length src) NUL)"

definition memcpy :: "char list \<Rightarrow> nat \<Rightarrow> string \<Rightarrow> nat \<Rightarrow> fault + char list" where
  "memcpy buf off src n = write_bytes buf off (take n (src @ [NUL]))"

text \<open>The C string held by a buffer: its bytes before the first NUL.\<close>

definition cstr :: "char list \<Rightarrow> string" where
  "cstr buf = takeWhile (\<lambda>c. c \<noteq> NUL) buf"

section \<open>formURL\<close>

text \<open>
  The loop of formURL, \<open>for (i = 1; i <= stationLen; i++)\<close>. It ends with \<open>False\<close> where
  the source returns false from inside the loop (a character that is not alphanumeric), and
  with \<open>True\<close> where the loop runs to its end. Since \<open>i \<le> stationLen \<le> STATION_ID_LEN\<close>,
  the index \<open>(written + STATION_ID_LEN) - i\<close> does not wrap.
\<close>

function station_loop ::
  "string \<Rightarrow> nat \<Rightarrow> nat \<Rightarrow> nat \<Rightarrow> char list \<Rightarrow> fault + (bool \<times> char list)" where
  "station_loop station stationLen written i buf =
     (if i \<le> stationLen then
        (if \<not> isalnum (station ! (stationLen - i)) then Inr (False, buf)
         else
           (case store buf ((written + STATION_ID_LEN) - i) (toupper (station ! (stationLen - i))) of
              Inl f \<Rightarrow> Inl f
            | Inr buf' \<Rightarrow> station_loop station stationLen written (i + 1) buf'))
      else Inr (True, buf))"
  by pat_completeness auto
termination
  by (relation "measure (\<lambda>(station, stationLen, written, i, buf). stationLen + 1 - i)") auto

declare station_loop.simps [simp del]

text \<open>
  The switch of formURL over the request kind. Its \<open>default\<close> branch is excluded by the
  type \<open>urlType\<close>: main passes the three enumerators only.
\<close>

definition url_prefix :: "urlType \<Rightarrow> string" where
  "url_prefix type =
     (case type of
        METAR \<Rightarrow> URL_PREFIX_METAR
      | TAF \<Rightarrow> URL_PREFIX_TAF
      | Decoded \<Rightarrow> URL_PREFIX_DECODED)"

text \<open>
  formURL returns the fault, or the boolean result together with the buffer as it leaves it
  and the lines it has written to standard error with \<open>warnx\<close>.
\<close>

definition formURL ::
  "char list \<Rightarrow> nat \<Rightarrow> urlType \<Rightarrow> string \<Rightarrow> fault + (bool \<times> char list \<times> string list)" where
  "formURL buf bufLen type station =
     (let stationLen = strlen station in
      if stationLen \<noteq> STATION_ID_LEN \<and> stationLen \<noteq> STATION_ID_LEN - DEFAULT_STATION_PREFIX_LEN
      then Inr (False, buf, [''Station ID must be either three or four characters long.''])
      else
        let prefix = url_prefix type in
        (case strncpy buf 0 prefix bufLen of
           Inl f \<Rightarrow> Inl f
         | Inr buf1 \<Rightarrow>
             let written = strlen prefix in
             (case station_loop station stationLen written 1 buf1 of
                Inl f \<Rightarrow> Inl f
              | Inr (completed, buf2) \<Rightarrow>
                  if \<not> completed
                  then Inr (False, buf2, [''Station ID must contain only alphanumeric characters.''])
                  else
                    (case (if stationLen = STATION_ID_LEN - DEFAULT_STATION_PREFIX_LEN
                           then memcpy buf2 written DEFAULT_STATION_PREFIX DEFAULT_STATION_PREFIX_LEN
                           else Inr buf2) of
                       Inl f \<Rightarrow> Inl f
                     | Inr buf3 \<Rightarrow>
                         let written' = written + STATION_ID_LEN in
                         if \<not> (bufLen \<ge> written' + sizeof_lit URL_EXTENSION)
                         then Inl AssertionFailed
                         else
                           (case strncpy buf3 written' URL_EXTENSION (sizeof_lit URL_EXTENSION) of
                              Inl f \<Rightarrow> Inl f
                            | Inr buf4 \<Rightarrow> Inr (True, buf4, []))))))"

text \<open>
  The station field the specification describes: the station in upper case, with the default
  prefix in front of a three-character station; and the stations it calls valid.
\<close>

definition station_field :: "string \<Rightarrow> string" where
  "station_field station =
     (if length station = 3 then DEFAULT_STATION_PREFIX else []) @ map toupper station"

definition valid_station :: "string \<Rightarrow> bool" where
  "valid_station station \<longleftrightarrow>
     (length station = 3 \<or> length station = 4) \<and> (\<forall>c \<in> set station. isalnum c)"

definition station_url :: "urlType \<Rightarrow> string \<Rightarrow> string" where
  "station_url type station = url_prefix type @ station_field station @ URL_EXTENSION"

section \<open>The write callback\<close>

text \<open>
  libcurl hands the write callback a pointer to the received bytes and their count
  \<open>size * nmemb\<close>; the bytes are not NUL-terminated. The memory at the pointer is
  modelled by the list \<open>contents\<close> of the bytes found there: the received bytes first,
  then whatever follows them in memory. \<open>printf ("%s", contents)\<close> prints the bytes before
  the first NUL. The model takes the listed memory to end where a NUL byte follows, so that
  the read always stops; a read that runs into unmapped memory is outside the model.
  The unused \<open>userp\<close> is left out. The result is the text printed and the value returned.
\<close>

definition printData :: "char list \<Rightarrow> nat \<Rightarrow> nat \<Rightarrow> string \<times> nat" where
  "printData contents size_c nmemb = (cstr contents, size_c * nmemb)"

section \<open>The environment of main\<close>

text \<open>
  What the program does not decide is a parameter: whether \<open>curl_easy_init\<close> succeeds, what
  each transfer does, the text of \<open>curl_easy_strerror\<close>, and the indeterminate initial bytes
  of the array \<open>url\<close>. A transfer is the sequence of calls libcurl makes to the write
  callback, the code \<open>curl_easy_perform\<close> returns and the response code
  \<open>curl_easy_getinfo\<close> reports afterwards. The network answers the \<open>k\<close>-th request of the
  run for a URL with \<open>net k url\<close>.
\<close>

type_synonym CURLcode = nat

definition CURLE_OK :: CURLcode where
  "CURLE_OK = 0"

definition CURLE_REMOTE_FILE_NOT_FOUND :: CURLcode where
  "CURLE_REMOTE_FILE_NOT_FOUND = 78"

record write_call =
  wc_contents :: "char list"
  wc_size :: nat
  wc_nmemb :: nat

record transfer =
  calls :: "write_call list"
  perform_result :: CURLcode
  response_code :: int

record env =
  curl_easy_init_ok :: bool
  net :: "nat \<Rightarrow> string \<Rightarrow> transfer"
  curl_easy_strerror :: "CURLcode \<Rightarrow> string"
  uninit :: "nat \<Rightarrow> char"

text \<open>
  The observable state: the bytes written to standard output, the messages written to
  standard error (one entry for each \<open>warnx\<close> or \<open>fprintf\<close>; \<open>warnx\<close> itself adds the
  program name and the newline), and the URLs requested so far, in order.
\<close>

record world =
  stdout :: "char list"
  stderr :: "string list"
  requests :: "string list"

text \<open>The exit statuses of \<open>sysexits.h\<close>.\<close>

definition EX_OK :: int where
  "EX_OK = 0"

definition EX_USAGE :: int where
  "EX_USAGE = 64"

definition EX_SOFTWARE :: int where
  "EX_SOFTWARE = 70"

definition warnx :: "string \<Rightarrow> world \<Rightarrow> world" where
  "warnx msg w = w\<lparr>stderr := stderr w @ [msg]\<rparr>"

definition usage :: "world \<Rightarrow> world \<times> int" where
  "usage w =
     (w\<lparr>stderr := stderr w @
        [''usage: metar [-dt] station_id [...]'' @ [CHR 0x0A] @
         [CHR 0x09] @ ''-d Show decoded METAR output'' @ [CHR 0x0A] @
         [CHR 0x09] @ ''-t Show TAFs where available'' @ [CHR 0x0A]]\<rparr>,
      EX_USAGE)"

text \<open>
  \<open>curl_easy_setopt (curl, CURLOPT_URL, url)\<close>, \<open>curl_easy_perform\<close> and
  \<open>curl_easy_getinfo (curl, CURLINFO_RESPONSE_CODE, &response)\<close>: the transfer runs the
  write callback on each call in turn, which prints to standard output. printData always
  returns \<open>size * nmemb\<close>, the count libcurl expects, so the callback never aborts a transfer.
\<close>

definition printed :: "transfer \<Rightarrow> string" where
  "printed t =
     concat (map (\<lambda>c. fst (printData (wc_contents c) (wc_size c) (wc_nmemb c))) (calls t))"

definition curl_easy_perform :: "env \<Rightarrow> string \<Rightarrow> world \<Rightarrow> world \<times> CURLcode \<times> int" where
  "curl_easy_perform e url w =
     (let t = net e (length (requests w)) url in
      (w\<lparr>stdout := stdout w @ printed t, requests := requests w @ [url]\<rparr>,
       perform_result t, response_code t))"

text \<open>The bytes a call delivers, and the body of a transfer: all the bytes it delivered.\<close>

definition received :: "write_call \<Rightarrow> char list" where
  "received c = take (wc_size c * wc_nmemb c) (wc_contents c)"

definition body :: "transfer \<Rightarrow> char list" where
  "body t = concat (map received (calls t))"

section \<open>main\<close>

text \<open>
  The \<open>getopt\<close> loop. \<open>getopt\<close> belongs to the C library: the list holds the values it
  returns before it returns -1, and \<open>None\<close> is the \<open>default\<close> branch, \<open>return usage()\<close>.
\<close>

fun getopt_loop :: "char list \<Rightarrow> bool \<Rightarrow> bool \<Rightarrow> (bool \<times> bool) option" where
  "getopt_loop [] decoded tafs = Some (decoded, tafs)"
| "getopt_loop (ch # chs) decoded tafs =
     (if ch = CHR ''d'' then getopt_loop chs True tafs
      else if ch = CHR ''t'' then getopt_loop chs decoded True
      else None)"

text \<open>The body of the loop over the station arguments; \<open>continue\<close> ends it early.\<close>

definition station_iteration :: "env \<Rightarrow> bool \<Rightarrow> bool \<Rightarrow> string \<Rightarrow> world \<Rightarrow> fault + world" where
  "station_iteration e decoded tafs station w =
     (case formURL (map (uninit e) [0..<URL_BUFFER_LEN]) URL_BUFFER_LEN
             (if decoded then Decoded else METAR) station of
        Inl f \<Rightarrow> Inl f
      | Inr (ok, url, warnings) \<Rightarrow>
          let w0 = w\<lparr>stderr := stderr w @ warnings\<rparr> in
          if \<not> ok then Inr w0
          else
            (case curl_easy_perform e (cstr url) w0 of
               (w1, res, response) \<Rightarrow>
                 if res = CURLE_REMOTE_FILE_NOT_FOUND \<or> response = HTTP_RESPONSE_NOT_FOUND
                 then Inr (warnx (''Station ID '' @ [CHR 0x22] @ station @ [CHR 0x22]
                                   @ '' not found'') w1)
                 else if res \<noteq> CURLE_OK
                 then Inr (warnx (''Unable to fetch information for station ID '' @ [CHR 0x22]
                                   @ station @ [CHR 0x22])
                            (warnx (curl_easy_strerror e res) w1))
                 else if tafs then
                   (case formURL url URL_BUFFER_LEN TAF station of
                      Inl f \<Rightarrow> Inl f
                    | Inr (ok2, url2, warnings2) \<Rightarrow>
                        let w2 = w1\<lparr>stderr := stderr w1 @ warnings2\<rparr> in
                        if ok2 then Inr (fst (curl_easy_perform e (cstr url2) w2))
                        else Inr w2)
                 else Inr w1))"

fun stations_loop :: "env \<Rightarrow> bool \<Rightarrow> bool \<Rightarrow> string list \<Rightarrow> world \<Rightarrow> fault + world" where
  "stations_loop e decoded tafs [] w = Inr w"
| "stations_loop e decoded tafs (station # rest) w =
     (case station_iteration e decoded tafs station w of
        Inl f \<Rightarrow> Inl f
      | Inr w' \<Rightarrow> stations_loop e decoded tafs rest w')"

text \<open>
  The process ends by returning a status from main, or is stopped by a fault. \<open>opts\<close> are
  the values returned by \<open>getopt\<close>, \<open>args\<close> the arguments left from \<open>optind\<close> on.
\<close>

datatype process_end = Returned int | Crashed fault

definition main :: "env \<Rightarrow> char list \<Rightarrow> string list \<Rightarrow> world \<times> process_end" where
  "main e opts args =
     (let w = \<lparr>stdout = [], stderr = [], requests = []\<rparr> in
      case getopt_loop opts False False of
        None \<Rightarrow> (case usage w of (w', status) \<Rightarrow> (w', Returned status))
      | Some (decoded, tafs) \<Rightarrow>
          if int (length args) < 1
          then (case usage (warnx ''At least one argument is required'' w) of
                  (w', status) \<Rightarrow> (w', Returned status))
          else if \<not> curl_easy_init_ok e then (w, Returned EX_SOFTWARE)
          else
            (case stations_loop e decoded tafs args w of
               Inl f \<Rightarrow> (w, Crashed f)
             | Inr w' \<Rightarrow> (w', Returned EX_OK)))"

section \<open>The fetch loop as the specification describes it\<close>

text \<open>
  The three outcomes of a fetch attempt, in the specification's words: not found when the
  transport reports that the remote resource was not found or the status code is 404,
  otherwise a transport error when the transport reports any other failure, otherwise
  success.
\<close>

datatype outcome = Success | NotFound | TransportError

definition spec_classify :: "CURLcode \<Rightarrow> int \<Rightarrow> outcome" where
  "spec_classify res response =
     (if res = CURLE_REMOTE_FILE_NOT_FOUND \<or> response = 404 then NotFound
      else if res \<noteq> CURLE_OK then TransportError
      else Success)"

definition primary_kind :: "bool \<Rightarrow> urlType" where
  "primary_kind decoded = (if decoded then Decoded else METAR)"

text \<open>
  What one station adds to standard output and how many requests it makes, when \<open>k\<close>
  requests have been made before it: the body of its primary transfer, and the body of its
  TAF transfer when that one takes place.
\<close>

definition spec_station_requests :: "env \<Rightarrow> bool \<Rightarrow> bool \<Rightarrow> string \<Rightarrow> nat \<Rightarrow> nat" where
  "spec_station_requests e decoded tafs station k =
     (if \<not> valid_station station then 0
      else
        let t = net e k (station_url (primary_kind decoded) station) in
        if spec_classify (perform_result t) (response_code t) = Success \<and> tafs then 2 else 1)"

definition spec_station_output :: "env \<Rightarrow> bool \<Rightarrow> bool \<Rightarrow> string \<Rightarrow> nat \<Rightarrow> string" where
  "spec_station_output e decoded tafs station k =
     (if \<not> valid_station station then []
      else
        let t = net e k (station_url (primary_kind decoded) station) in
        body t @
        (if spec_classify (perform_result t) (response_code t) = Success \<and> tafs
         then body (net e (k + 1) (station_url TAF station))
         else []))"

fun spec_run_output :: "env \<Rightarrow> bool \<Rightarrow> bool \<Rightarrow> string list \<Rightarrow> nat \<Rightarrow> string" where
  "spec_run_output e decoded tafs [] k = []"
| "spec_run_output e decoded tafs (station # rest) k =
     spec_station_output e decoded tafs station k
     @ spec_run_output e decoded tafs rest (k + spec_station_requests e decoded tafs station k)"

section \<open>Example environments\<close>

text \<open>
  A transfer that makes one call to the write callback, and an environment whose network
  answers the requests of a run from a list, in order, and cannot connect afterwards.
\<close>

definition one_call :: "char list \<Rightarrow> nat \<Rightarrow> CURLcode \<Rightarrow> int \<Rightarrow> transfer" where
  "one_call contents n code status =
     \<lparr>calls = [\<lparr>wc_contents = contents, wc_size = 1, wc_nmemb = n\<rparr>],
      perform_result = code, response_code = status\<rparr>"

definition no_call :: "CURLcode \<Rightarrow> int \<Rightarrow> transfer" where
  "no_call code status = \<lparr>calls = [], perform_result = code, response_code = status\<rparr>"

definition answers :: "transfer list \<Rightarrow> nat \<Rightarrow> string \<Rightarrow> transfer" where
  "answers ts k url = (if k < length ts then ts ! k else no_call 7 0)"

definition example_env :: "bool \<Rightarrow> transfer list \<Rightarrow> env" where
  "example_env init_ok ts =
     \<lparr>curl_easy_init_ok = init_ok, net = answers ts,
      curl_easy_strerror = (\<lambda>code. ''transfer failed''), uninit = (\<lambda>i. CHR ''?'')\<rparr>"

section \<open>Facts about the constants\<close>

lemma prefix_lengths:
  "length URL_PREFIX_METAR = 59" "length URL_PREFIX_DECODED = 58" "length URL_PREFIX_TAF = 54"
  by (simp_all add: URL_PREFIX_METAR_def URL_PREFIX_DECODED_def URL_PREFIX_TAF_def)

lemma URL_BUFFER_LEN_eq: "URL_BUFFER_LEN = 68"
  by (simp add: URL_BUFFER_LEN_def LONGEST_URL_PREFIX_def sizeof_lit_def STATION_ID_LEN_def
      URL_EXTENSION_def prefix_lengths)

lemma url_prefix_length: "length (url_prefix type) + 9 \<le> URL_BUFFER_LEN"
  by (cases type) (simp_all add: url_prefix_def prefix_lengths URL_BUFFER_LEN_eq)

lemma url_prefix_no_NUL: "NUL \<notin> set (url_prefix type)"
  by (cases type)
    (simp_all add: url_prefix_def NUL_def URL_PREFIX_METAR_def URL_PREFIX_DECODED_def
      URL_PREFIX_TAF_def)

lemma toupper_not_NUL: "isalnum c \<Longrightarrow> toupper c \<noteq> NUL"
proof -
  assume "isalnum c"
  then have "of_char (toupper c) \<noteq> (0::nat)"
    by (auto simp: isalnum_def toupper_def Let_def)
  then show ?thesis
    by (auto simp: NUL_def)
qed

section \<open>The loop of formURL\<close>

lemma station_loop_completes:
  assumes "1 \<le> i" "i \<le> n + 1" "n \<le> length station" "n \<le> 4"
    and "\<forall>k < n + 1 - i. isalnum (station ! k)"
    and "w + 4 \<le> length buf"
  shows "station_loop station n w i buf =
    Inr (True, take (w + 4 - n) buf @ map toupper (take (n + 1 - i) station) @ drop (w + 5 - i) buf)"
  using assms
proof (induction station n w i buf rule: station_loop.induct)
  case (1 station n w i buf)
  show ?case
  proof (cases "i \<le> n")
    case False
    with "1.prems" have i: "i = n + 1" by simp
    have "station_loop station n w i buf = Inr (True, buf)"
      using False by (subst station_loop.simps) simp
    moreover have "w + 5 - i = w + 4 - n" "n + 1 - i = 0"
      using i by simp_all
    ultimately show ?thesis
      by simp
  next
    case True
    let ?p = "w + 4 - i"
    let ?c = "toupper (station ! (n - i))"
    let ?buf' = "buf[?p := ?c]"
    from True "1.prems" have alnum: "isalnum (station ! (n - i))" by simp
    from True "1.prems" have p: "?p < length buf" by simp
    have st: "store buf (w + STATION_ID_LEN - i) ?c = Inr ?buf'"
      using p by (simp add: store_def STATION_ID_LEN_def)
    have IH: "station_loop station n w (i + 1) ?buf' =
      Inr (True, take (w + 4 - n) ?buf' @ map toupper (take (n + 1 - (i + 1)) station)
                 @ drop (w + 5 - (i + 1)) ?buf')"
      using True alnum st "1.prems" by (intro "1.IH") auto
    have t1: "take (w + 4 - n) ?buf' = take (w + 4 - n) buf"
      using True by simp
    have t2: "drop (w + 5 - (i + 1)) ?buf' = ?c # drop (w + 5 - i) buf"
    proof -
      have "?buf' = take ?p buf @ ?c # drop (Suc ?p) buf"
        using p by (rule upd_conv_take_nth_drop)
      then have "drop ?p ?buf' = drop ?p (take ?p buf @ ?c # drop (Suc ?p) buf)"
        by simp
      also have "\<dots> = ?c # drop (Suc ?p) buf"
        using p by simp
      finally have "drop ?p ?buf' = ?c # drop (Suc ?p) buf" .
      moreover have "Suc ?p = w + 5 - i" using True "1.prems" by simp
      moreover have "w + 5 - (i + 1) = ?p" by simp
      ultimately show ?thesis by simp
    qed
    have t3: "take (n + 1 - i) station = take (n - i) station @ [station ! (n - i)]"
    proof -
      have "n - i < length station" using True "1.prems" by simp
      then have "take (Suc (n - i)) station = take (n - i) station @ [station ! (n - i)]"
        by (rule take_Suc_conv_app_nth)
      moreover have "Suc (n - i) = n + 1 - i" using True by simp
      ultimately show ?thesis by simp
    qed
    have "station_loop station n w i buf = station_loop station n w (i + 1) ?buf'"
      using True alnum st by (subst station_loop.simps) simp
    also note IH
    finally show ?thesis
      using t1 t2 t3 by simp
  qed
qed

lemma station_loop_rejects:
  assumes "1 \<le> i" "i \<le> n + 1" "n \<le> 4"
    and "\<exists>k < n + 1 - i. \<not> isalnum (station ! k)"
    and "w + 4 \<le> length buf"
  shows "\<exists>buf'. station_loop station n w i buf = Inr (False, buf') \<and> length buf' = length buf"
  using assms
proof (induction station n w i buf rule: station_loop.induct)
  case (1 station n w i buf)
  from "1.prems" have le: "i \<le> n" by auto
  show ?case
  proof (cases "isalnum (station ! (n - i))")
    case False
    then show ?thesis
      using le by (subst station_loop.simps) simp
  next
    case True
    let ?p = "w + 4 - i"
    let ?c = "toupper (station ! (n - i))"
    let ?buf' = "buf[?p := ?c]"
    from le "1.prems" have p: "?p < length buf" by simp
    have st: "store buf (w + STATION_ID_LEN - i) ?c = Inr ?buf'"
      using p by (simp add: store_def STATION_ID_LEN_def)
    from "1.prems" obtain k where k: "k < n + 1 - i" "\<not> isalnum (station ! k)" by blast
    with True have "k \<noteq> n - i" by auto
    with k have "k < n + 1 - (i + 1)" by simp
    with k have ex: "\<exists>k < n + 1 - (i + 1). \<not> isalnum (station ! k)" by blast
    have "\<exists>buf'. station_loop station n w (i + 1) ?buf' = Inr (False, buf') \<and> length buf' = length ?buf'"
      using le True st "1.prems" ex by (intro "1.IH") auto
    moreover have "station_loop station n w i buf = station_loop station n w (i + 1) ?buf'"
      using le True st by (subst station_loop.simps) simp
    ultimately show ?thesis by simp
  qed
qed


lemma formURL_bad_length:
  assumes "length station \<noteq> 3" "length station \<noteq> 4"
  shows "formURL buf bufLen type station =
    Inr (False, buf, [''Station ID must be either three or four characters long.''])"
  using assms
  by (simp add: formURL_def strlen_def STATION_ID_LEN_def DEFAULT_STATION_PREFIX_LEN_def
      DEFAULT_STATION_PREFIX_def sizeof_lit_def)

lemma strncpy_prefix:
  assumes "length buf = bufLen" "length P \<le> bufLen"
  shows "strncpy buf 0 P bufLen = Inr (P @ replicate (bufLen - length P) NUL)"
  using assms by (simp add: strncpy_def write_bytes_def)


lemma formURL_bad_char:
  assumes len: "length station = 3 \<or> length station = 4"
    and bad: "\<exists>c \<in> set station. \<not> isalnum c"
    and buf: "length buf = bufLen" "length (url_prefix type) + 9 \<le> bufLen"
  shows "\<exists>buf'. formURL buf bufLen type station =
      Inr (False, buf', [''Station ID must contain only alphanumeric characters.''])
    \<and> length buf' = bufLen"
proof -
  let ?P = "url_prefix type"
  let ?B1 = "?P @ replicate (bufLen - length ?P) NUL"
  have s1: "strncpy buf 0 ?P bufLen = Inr ?B1"
    using buf by (intro strncpy_prefix) auto
  from bad obtain k where "k < length station" "\<not> isalnum (station ! k)"
    by (auto simp: in_set_conv_nth)
  then have "\<exists>k < length station + 1 - 1. \<not> isalnum (station ! k)"
    by auto
  moreover have "length ?P + 4 \<le> length ?B1"
    using buf by simp
  ultimately have "\<exists>buf'. station_loop station (length station) (length ?P) 1 ?B1 = Inr (False, buf')
      \<and> length buf' = length ?B1"
    using len by (intro station_loop_rejects) auto
  then obtain buf' where loop:
    "station_loop station (length station) (length ?P) 1 ?B1 = Inr (False, buf')"
    and "length buf' = length ?B1"
    by blast
  then have l: "length buf' = bufLen"
    using buf by simp
  have "formURL buf bufLen type station =
      Inr (False, buf', [''Station ID must contain only alphanumeric characters.''])"
    using len s1 loop
    by (auto simp add: formURL_def Let_def strlen_def STATION_ID_LEN_def
        DEFAULT_STATION_PREFIX_LEN_def DEFAULT_STATION_PREFIX_def sizeof_lit_def)
  with l show ?thesis by blast
qed

lemma formURL_valid:
  assumes valid: "valid_station station"
    and buf: "length buf = bufLen" "length (url_prefix type) + 9 \<le> bufLen"
  shows "formURL buf bufLen type station =
    Inr (True,
         url_prefix type @ station_field station @ URL_EXTENSION
           @ replicate (bufLen - (length (url_prefix type) + 8)) NUL,
         [])"
proof -
  let ?P = "url_prefix type"
  let ?m = "bufLen - length ?P"
  let ?B1 = "?P @ replicate ?m NUL"
  let ?n = "length station"
  from valid have len: "?n = 3 \<or> ?n = 4" and alnum: "\<forall>c \<in> set station. isalnum c"
    by (simp_all add: valid_station_def)
  from buf have m: "9 \<le> ?m" by simp
  have s1: "strncpy buf 0 ?P bufLen = Inr ?B1"
    using buf by (intro strncpy_prefix) auto
  let ?B2 = "take (length ?P + 4 - ?n) ?B1 @ map toupper station @ replicate (?m - 4) NUL"
  have "station_loop station ?n (length ?P) 1 ?B1 =
    Inr (True, take (length ?P + 4 - ?n) ?B1 @ map toupper (take (?n + 1 - 1) station)
               @ drop (length ?P + 5 - 1) ?B1)"
    using len alnum buf by (intro station_loop_completes) auto
  moreover have "drop (length ?P + 5 - 1) ?B1 = replicate (?m - 4) NUL"
    by simp
  ultimately have loop: "station_loop station ?n (length ?P) 1 ?B1 = Inr (True, ?B2)"
    by simp
  let ?B3 = "?P @ station_field station @ replicate (?m - 4) NUL"
  let ?B4 = "?P @ station_field station @ ''.TXT'' @ replicate (bufLen - (length ?P + 8)) NUL"
  have lf: "length (station_field station) = 4"
    using len by (auto simp: station_field_def DEFAULT_STATION_PREFIX_def)
  have B4': "strncpy ?B3 (length ?P + 4) URL_EXTENSION (length URL_EXTENSION + 1) = Inr ?B4"
  proof -
    have "drop 5 (replicate (?m - 4) NUL) = replicate (bufLen - (length ?P + 9)) NUL"
      by simp
    moreover have "[NUL] @ replicate (bufLen - (length ?P + 9)) NUL
        = replicate (bufLen - (length ?P + 8)) NUL"
    proof -
      have "bufLen - (length ?P + 8) = Suc (bufLen - (length ?P + 9))"
        using buf by simp
      then show ?thesis by simp
    qed
    ultimately show ?thesis
      using lf m by (simp add: strncpy_def write_bytes_def URL_EXTENSION_def)
  qed
  have asrt: "length ?P + 4 + (length URL_EXTENSION + 1) \<le> bufLen"
    using buf by (simp add: URL_EXTENSION_def)
  have res: "?P @ station_field station @ URL_EXTENSION
      @ replicate (bufLen - (length ?P + 8)) NUL = ?B4"
    by (simp add: URL_EXTENSION_def)
  show ?thesis
  proof (cases "?n = 3")
    case True
    then have "take (length ?P + 4 - ?n) ?B1 = ?P @ [NUL]"
      using m by (simp add: min_def)
    then have mc: "memcpy ?B2 (length ?P) ''K'' 1 = Inr ?B3"
      using True by (simp add: memcpy_def write_bytes_def station_field_def
          DEFAULT_STATION_PREFIX_def)
    have "formURL buf bufLen type station = Inr (True, ?B4, [])"
      using True s1 loop mc asrt B4'
      by (simp add: formURL_def Let_def strlen_def STATION_ID_LEN_def
        DEFAULT_STATION_PREFIX_LEN_def DEFAULT_STATION_PREFIX_def sizeof_lit_def)
    then show ?thesis
      by (simp only: res)
  next
    case False
    with len have n4: "?n = 4" by simp
    then have b2: "?B2 = ?B3"
      by (simp add: station_field_def)
    have "formURL buf bufLen type station = Inr (True, ?B4, [])"
      using n4 s1 loop [unfolded b2] asrt B4'
      by (simp add: formURL_def Let_def strlen_def STATION_ID_LEN_def
        DEFAULT_STATION_PREFIX_LEN_def DEFAULT_STATION_PREFIX_def sizeof_lit_def)
    then show ?thesis
      by (simp only: res)
  qed
qed

section \<open>The C string in the buffer\<close>

lemma cstr_padded:
  assumes "NUL \<notin> set xs"
  shows "cstr (xs @ replicate k NUL) = xs"
proof -
  have "takeWhile (\<lambda>c. c \<noteq> NUL) (replicate k NUL) = []"
    by (cases k) simp_all
  moreover have "\<And>x. x \<in> set xs \<Longrightarrow> x \<noteq> NUL"
    using assms by auto
  ultimately show ?thesis
    by (simp add: cstr_def takeWhile_append2)
qed

lemma station_field_no_NUL:
  assumes "\<forall>c \<in> set station. isalnum c"
  shows "NUL \<notin> set (station_field station)"
proof -
  have "NUL \<notin> set (map toupper station)"
    using assms toupper_not_NUL by fastforce
  moreover have "NUL \<notin> set DEFAULT_STATION_PREFIX"
    by (simp add: DEFAULT_STATION_PREFIX_def NUL_def)
  ultimately show ?thesis
    by (simp add: station_field_def)
qed

lemma station_url_no_NUL:
  "\<forall>c \<in> set station. isalnum c \<Longrightarrow> NUL \<notin> set (station_url type station)"
  using url_prefix_no_NUL [of type] station_field_no_NUL [of station]
  by (simp add: station_url_def URL_EXTENSION_def NUL_def)

lemma formURL_valid_url:
  assumes "valid_station station" "length buf = URL_BUFFER_LEN"
  shows "\<exists>buf'. formURL buf URL_BUFFER_LEN type station = Inr (True, buf', [])
    \<and> length buf' = URL_BUFFER_LEN \<and> cstr buf' = station_url type station"
proof -
  let ?k = "URL_BUFFER_LEN - (length (url_prefix type) + 8)"
  let ?buf' = "url_prefix type @ station_field station @ URL_EXTENSION @ replicate ?k NUL"
  have f: "formURL buf URL_BUFFER_LEN type station = Inr (True, ?buf', [])"
    using assms url_prefix_length [of type] by (intro formURL_valid) auto
  have e: "?buf' = station_url type station @ replicate ?k NUL"
    by (simp add: station_url_def)
  have "NUL \<notin> set (station_url type station)"
    using assms(1) by (intro station_url_no_NUL) (simp add: valid_station_def)
  then have c: "cstr ?buf' = station_url type station"
    unfolding e by (rule cstr_padded)
  have "length (station_field station) = 4"
    using assms(1) by (auto simp: valid_station_def station_field_def DEFAULT_STATION_PREFIX_def)
  then have l: "length ?buf' = URL_BUFFER_LEN"
    using url_prefix_length [of type] by (simp add: URL_EXTENSION_def)
  from f l c show ?thesis by blast
qed

lemma formURL_success_valid:
  assumes "length buf = URL_BUFFER_LEN"
    and "formURL buf URL_BUFFER_LEN type station = Inr (True, url, ws)"
  shows "valid_station station"
proof (rule ccontr)
  assume nv: "\<not> valid_station station"
  show False
  proof (cases "length station = 3 \<or> length station = 4")
    case False
    then show False
      using assms(2) formURL_bad_length [of station buf URL_BUFFER_LEN type] by simp
  next
    case True
    with nv have "\<exists>c \<in> set station. \<not> isalnum c"
      by (auto simp: valid_station_def)
    with True obtain buf' where "formURL buf URL_BUFFER_LEN type station =
      Inr (False, buf', [''Station ID must contain only alphanumeric characters.''])"
      using formURL_bad_char [OF True _ assms(1) url_prefix_length, of type] by blast
    with assms(2) show False by simp
  qed
qed

section \<open>The URL of a valid station\<close>

lemma station_url_literal:
  "station_url METAR station =
     ''http://tgftp.nws.noaa.gov/data/observations/metar/stations/'' @ station_field station @ ''.TXT''"
  "station_url TAF station =
     ''http://tgftp.nws.noaa.gov/data/forecasts/taf/stations/'' @ station_field station @ ''.TXT''"
  "station_url Decoded station =
     ''http://tgftp.nws.noaa.gov/data/observations/metar/decoded/'' @ station_field station @ ''.TXT''"
  by (simp_all add: station_url_def url_prefix_def URL_PREFIX_METAR_def URL_PREFIX_TAF_def
      URL_PREFIX_DECODED_def URL_EXTENSION_def)

text \<open>
  C1. For every station of exactly four alphanumeric characters, formURL on the array of
  main succeeds for each of the three request kinds, writes no diagnostic, and leaves in the
  buffer the C string made of the fixed address of that kind, the characters of the station
  in their order, each in upper case, and the extension \<open>.TXT\<close>.
\<close>

theorem formURL_four_characters:
  assumes "length station = 4" and "\<forall>c \<in> set station. isalnum c"
    and "length buf = URL_BUFFER_LEN"
  shows "(\<exists>buf'. formURL buf URL_BUFFER_LEN METAR station = Inr (True, buf', [])
            \<and> cstr buf' = ''http://tgftp.nws.noaa.gov/data/observations/metar/stations/''
                           @ map toupper station @ ''.TXT'')
    \<and> (\<exists>buf'. formURL buf URL_BUFFER_LEN TAF station = Inr (True, buf', [])
            \<and> cstr buf' = ''http://tgftp.nws.noaa.gov/data/forecasts/taf/stations/''
                           @ map toupper station @ ''.TXT'')
    \<and> (\<exists>buf'. formURL buf URL_BUFFER_LEN Decoded station = Inr (True, buf', [])
            \<and> cstr buf' = ''http://tgftp.nws.noaa.gov/data/observations/metar/decoded/''
                           @ map toupper station @ ''.TXT'')"
proof -
  from assms have v: "valid_station station"
    by (simp add: valid_station_def)
  have f: "station_field station = map toupper station"
    using assms(1) by (simp add: station_field_def)
  have kind: "\<exists>buf'. formURL buf URL_BUFFER_LEN type station = Inr (True, buf', [])
      \<and> cstr buf' = station_url type station" for type
    using formURL_valid_url [OF v assms(3), of type] by blast
  show ?thesis
    using kind [of METAR] kind [of TAF] kind [of Decoded]
    by (simp only: station_url_literal f)
qed

lemma toupper_examples:
  "toupper CHR ''k'' = CHR ''K''" "toupper CHR ''j'' = CHR ''J''" "toupper CHR ''f'' = CHR ''F''"
  "toupper CHR ''l'' = CHR ''L''" "toupper CHR ''a'' = CHR ''A''" "toupper CHR ''x'' = CHR ''X''"
  "toupper CHR ''K'' = CHR ''K''" "toupper CHR ''J'' = CHR ''J''" "toupper CHR ''F'' = CHR ''F''"
  "toupper CHR ''L'' = CHR ''L''" "toupper CHR ''A'' = CHR ''A''" "toupper CHR ''X'' = CHR ''X''"
  by code_simp+

theorem formURL_four_characters_witness:
  "length ''kjfk'' = 4 \<and> list_all isalnum ''kjfk''
   \<and> length (replicate 68 (CHR ''?'')) = URL_BUFFER_LEN
   \<and> (\<exists>buf'. formURL (replicate 68 (CHR ''?'')) URL_BUFFER_LEN METAR ''kjfk'' = Inr (True, buf', [])
        \<and> cstr buf' = ''http://tgftp.nws.noaa.gov/data/observations/metar/stations/KJFK.TXT'')
   \<and> (\<exists>buf'. formURL (replicate 68 (CHR ''?'')) URL_BUFFER_LEN TAF ''kjfk'' = Inr (True, buf', [])
        \<and> cstr buf' = ''http://tgftp.nws.noaa.gov/data/forecasts/taf/stations/KJFK.TXT'')
   \<and> (\<exists>buf'. formURL (replicate 68 (CHR ''?'')) URL_BUFFER_LEN Decoded ''kjfk'' = Inr (True, buf', [])
        \<and> cstr buf' = ''http://tgftp.nws.noaa.gov/data/observations/metar/decoded/KJFK.TXT'')"
proof -
  have h: "length ''kjfk'' = 4" "\<forall>c \<in> set ''kjfk''. isalnum c"
    "length (replicate 68 (CHR ''?'')) = URL_BUFFER_LEN"
    by (simp_all add: isalnum_def URL_BUFFER_LEN_eq)
  show ?thesis
    using h formURL_four_characters [OF h]
    by (simp add: toupper_examples list_all_iff)
qed

text \<open>
  C2. For every station of exactly three alphanumeric characters, formURL on the array of
  main succeeds for each of the three request kinds and leaves in the buffer the fixed
  address of that kind, the default prefix character \<open>K\<close>, the station in upper case and
  \<open>.TXT\<close>; the station field has four characters.
\<close>

theorem formURL_three_characters:
  assumes "length station = 3" and "\<forall>c \<in> set station. isalnum c"
    and "length buf = URL_BUFFER_LEN"
  shows "(\<exists>buf'. formURL buf URL_BUFFER_LEN METAR station = Inr (True, buf', [])
            \<and> cstr buf' = ''http://tgftp.nws.noaa.gov/data/observations/metar/stations/''
                           @ ''K'' @ map toupper station @ ''.TXT'')
    \<and> (\<exists>buf'. formURL buf URL_BUFFER_LEN TAF station = Inr (True, buf', [])
            \<and> cstr buf' = ''http://tgftp.nws.noaa.gov/data/forecasts/taf/stations/''
                           @ ''K'' @ map toupper station @ ''.TXT'')
    \<and> (\<exists>buf'. formURL buf URL_BUFFER_LEN Decoded station = Inr (True, buf', [])
            \<and> cstr buf' = ''http://tgftp.nws.noaa.gov/data/observations/metar/decoded/''
                           @ ''K'' @ map toupper station @ ''.TXT'')
    \<and> length (''K'' @ map toupper station) = 4"
proof -
  from assms have v: "valid_station station"
    by (simp add: valid_station_def)
  have f: "station_field station = ''K'' @ map toupper station"
    using assms(1) by (simp add: station_field_def DEFAULT_STATION_PREFIX_def)
  have l: "length (''K'' @ map toupper station) = 4"
    using assms(1) by simp
  have kind: "\<exists>buf'. formURL buf URL_BUFFER_LEN type station = Inr (True, buf', [])
      \<and> cstr buf' = station_url type station" for type
    using formURL_valid_url [OF v assms(3), of type] by blast
  show ?thesis
    using kind [of METAR] kind [of TAF] kind [of Decoded] l
    by (simp only: station_url_literal f append_assoc simp_thms)
qed

theorem formURL_three_characters_witness:
  "length ''lax'' = 3 \<and> list_all isalnum ''lax''
   \<and> length (replicate 68 (CHR ''?'')) = URL_BUFFER_LEN
   \<and> (\<exists>buf'. formURL (replicate 68 (CHR ''?'')) URL_BUFFER_LEN METAR ''lax'' = Inr (True, buf', [])
        \<and> cstr buf' = ''http://tgftp.nws.noaa.gov/data/observations/metar/stations/KLAX.TXT'')
   \<and> (\<exists>buf'. formURL (replicate 68 (CHR ''?'')) URL_BUFFER_LEN TAF ''lax'' = Inr (True, buf', [])
        \<and> cstr buf' = ''http://tgftp.nws.noaa.gov/data/forecasts/taf/stations/KLAX.TXT'')
   \<and> (\<exists>buf'. formURL (replicate 68 (CHR ''?'')) URL_BUFFER_LEN Decoded ''lax'' = Inr (True, buf', [])
        \<and> cstr buf' = ''http://tgftp.nws.noaa.gov/data/observations/metar/decoded/KLAX.TXT'')"
proof -
  have h: "length ''lax'' = 3" "\<forall>c \<in> set ''lax''. isalnum c"
    "length (replicate 68 (CHR ''?'')) = URL_BUFFER_LEN"
    by (simp_all add: isalnum_def URL_BUFFER_LEN_eq)
  show ?thesis
    using h formURL_three_characters [OF h]
    by (simp add: toupper_examples list_all_iff)
qed

section \<open>The capacity of the URL buffer\<close>

text \<open>
  C4. On an array of URL_BUFFER_LEN bytes, formURL never writes outside the array and its
  capacity assertion never fails, for every request kind and every station: it returns
  without a fault and leaves the array at its size. When it succeeds, the buffer holds the
  whole URL, not truncated, followed by its terminator inside the array.
\<close>

theorem formURL_within_buffer:
  assumes "length buf = URL_BUFFER_LEN"
  shows "\<exists>ok buf' ws. formURL buf URL_BUFFER_LEN type station = Inr (ok, buf', ws)
    \<and> length buf' = URL_BUFFER_LEN
    \<and> (ok \<longrightarrow> cstr buf' = station_url type station
              \<and> length (station_url type station) + 1 \<le> URL_BUFFER_LEN)
    \<and> length (url_prefix type) \<le> length LONGEST_URL_PREFIX
    \<and> URL_BUFFER_LEN = length LONGEST_URL_PREFIX + STATION_ID_LEN + length URL_EXTENSION + 1"
proof -
  have cap: "length (url_prefix type) \<le> length LONGEST_URL_PREFIX"
    "URL_BUFFER_LEN = length LONGEST_URL_PREFIX + STATION_ID_LEN + length URL_EXTENSION + 1"
    by (cases type)
      (simp_all add: url_prefix_def LONGEST_URL_PREFIX_def prefix_lengths URL_BUFFER_LEN_def
        sizeof_lit_def)
  show ?thesis
  proof (cases "valid_station station")
    case True
    then obtain buf' where f: "formURL buf URL_BUFFER_LEN type station = Inr (True, buf', [])"
      and l: "length buf' = URL_BUFFER_LEN" and c: "cstr buf' = station_url type station"
      using formURL_valid_url [OF _ assms] by blast
    have "length (station_field station) = 4"
      using True by (auto simp: valid_station_def station_field_def DEFAULT_STATION_PREFIX_def)
    then have "length (station_url type station) + 1 \<le> URL_BUFFER_LEN"
      using url_prefix_length [of type] by (simp add: station_url_def URL_EXTENSION_def)
    with f l c cap show ?thesis by blast
  next
    case False
    show ?thesis
    proof (cases "length station = 3 \<or> length station = 4")
      case len: True
      with False have "\<exists>c \<in> set station. \<not> isalnum c"
        by (auto simp: valid_station_def)
      then obtain buf' where "formURL buf URL_BUFFER_LEN type station =
        Inr (False, buf', [''Station ID must contain only alphanumeric characters.''])"
        and "length buf' = URL_BUFFER_LEN"
        using formURL_bad_char [OF len _ assms url_prefix_length, of type] by blast
      then show ?thesis using cap by auto
    next
      case len: False
      then have "formURL buf URL_BUFFER_LEN type station =
        Inr (False, buf, [''Station ID must be either three or four characters long.''])"
        by (intro formURL_bad_length) auto
      then show ?thesis
        using assms cap by auto
    qed
  qed
qed

theorem formURL_within_buffer_witness:
  "length (replicate 68 (CHR ''?'')) = URL_BUFFER_LEN
   \<and> (\<exists>buf' ws. formURL (replicate 68 (CHR ''?'')) URL_BUFFER_LEN METAR ''KJFK'' = Inr (True, buf', ws)
        \<and> length buf' = URL_BUFFER_LEN
        \<and> cstr buf' = station_url METAR ''KJFK''
        \<and> length (station_url METAR ''KJFK'') + 1 = URL_BUFFER_LEN)"
proof -
  have h: "length (replicate 68 (CHR ''?'')) = URL_BUFFER_LEN"
    by (simp add: URL_BUFFER_LEN_eq)
  have v: "valid_station ''KJFK''"
    by (simp add: valid_station_def isalnum_def)
  obtain ok buf' ws where
    f: "formURL (replicate 68 (CHR ''?'')) URL_BUFFER_LEN METAR ''KJFK'' = Inr (ok, buf', ws)"
    and l: "length buf' = URL_BUFFER_LEN"
    and c: "ok \<longrightarrow> cstr buf' = station_url METAR ''KJFK''
              \<and> length (station_url METAR ''KJFK'') + 1 \<le> URL_BUFFER_LEN"
    using formURL_within_buffer [OF h, of METAR "''KJFK''"] by blast
  from formURL_valid_url [OF v h, of METAR] f have "ok" by auto
  moreover have "length (station_url METAR ''KJFK'') + 1 = URL_BUFFER_LEN"
    by (simp add: station_url_def url_prefix_def prefix_lengths station_field_def
        URL_EXTENSION_def URL_BUFFER_LEN_eq)
  ultimately show ?thesis
    using h f l c by auto
qed

section \<open>One iteration of the loop over the stations\<close>

lemma station_iteration_bad_length:
  assumes "length station \<noteq> 3" "length station \<noteq> 4"
  shows "station_iteration e decoded tafs station w =
    Inr (warnx ''Station ID must be either three or four characters long.'' w)"
  using assms by (simp add: station_iteration_def formURL_bad_length warnx_def)

lemma station_iteration_bad_char:
  assumes "length station = 3 \<or> length station = 4" and "\<exists>c \<in> set station. \<not> isalnum c"
  shows "station_iteration e decoded tafs station w =
    Inr (warnx ''Station ID must contain only alphanumeric characters.'' w)"
proof -
  have "length (map (uninit e) [0..<URL_BUFFER_LEN]) = URL_BUFFER_LEN"
    by simp
  then obtain buf' where "formURL (map (uninit e) [0..<URL_BUFFER_LEN]) URL_BUFFER_LEN
      (if decoded then Decoded else METAR) station =
      Inr (False, buf', [''Station ID must contain only alphanumeric characters.''])"
    using formURL_bad_char [OF assms _ url_prefix_length] by blast
  then show ?thesis
    by (simp add: station_iteration_def warnx_def)
qed

lemma station_iteration_valid:
  assumes "valid_station station"
  shows "station_iteration e decoded tafs station w =
    (case curl_easy_perform e (station_url (primary_kind decoded) station) w of
       (w1, res, response) \<Rightarrow>
         if res = CURLE_REMOTE_FILE_NOT_FOUND \<or> response = HTTP_RESPONSE_NOT_FOUND
         then Inr (warnx (''Station ID '' @ [CHR 0x22] @ station @ [CHR 0x22] @ '' not found'') w1)
         else if res \<noteq> CURLE_OK
         then Inr (warnx (''Unable to fetch information for station ID '' @ [CHR 0x22]
                           @ station @ [CHR 0x22])
                    (warnx (curl_easy_strerror e res) w1))
         else if tafs then Inr (fst (curl_easy_perform e (station_url TAF station) w1))
         else Inr w1)"
proof -
  have "length (map (uninit e) [0..<URL_BUFFER_LEN]) = URL_BUFFER_LEN"
    by simp
  then obtain url where
    f1: "formURL (map (uninit e) [0..<URL_BUFFER_LEN]) URL_BUFFER_LEN
      (if decoded then Decoded else METAR) station = Inr (True, url, [])"
    and l1: "length url = URL_BUFFER_LEN"
    and c1: "cstr url = station_url (primary_kind decoded) station"
    using formURL_valid_url [OF assms, of _ "if decoded then Decoded else METAR"]
    unfolding primary_kind_def by blast
  obtain url2 where
    f2: "formURL url URL_BUFFER_LEN TAF station = Inr (True, url2, [])"
    and c2: "cstr url2 = station_url TAF station"
    using formURL_valid_url [OF assms l1, of TAF] by blast
  obtain w1 res response where
    p: "curl_easy_perform e (station_url (primary_kind decoded) station) w = (w1, res, response)"
    by (cases "curl_easy_perform e (station_url (primary_kind decoded) station) w") auto
  show ?thesis
    by (simp add: station_iteration_def f1 c1 p f2 c2)
qed


lemma curl_easy_perform_world:
  assumes "curl_easy_perform e url w = (w1, res, response)"
  shows "stderr w1 = stderr w" "requests w1 = requests w @ [url]"
    "stdout w1 = stdout w @ printed (net e (length (requests w)) url)"
    "res = perform_result (net e (length (requests w)) url)"
    "response = response_code (net e (length (requests w)) url)"
  using assms by (auto simp: curl_easy_perform_def Let_def)

lemma station_iteration_returns: "\<exists>w'. station_iteration e decoded tafs station w = Inr w'"
proof (cases "valid_station station")
  case True
  show ?thesis
    unfolding station_iteration_valid [OF True]
    by (simp split: prod.splits)
next
  case False
  show ?thesis
  proof (cases "length station = 3 \<or> length station = 4")
    case len: True
    with False have "\<exists>c \<in> set station. \<not> isalnum c"
      by (auto simp: valid_station_def)
    with len show ?thesis
      by (simp add: station_iteration_bad_char)
  next
    case len: False
    then show ?thesis
      by (simp add: station_iteration_bad_length)
  qed
qed

lemma stations_loop_returns: "\<exists>w'. stations_loop e decoded tafs stations w = Inr w'"
proof (induction stations arbitrary: w)
  case Nil
  show ?case by simp
next
  case (Cons station rest)
  obtain w1 where "station_iteration e decoded tafs station w = Inr w1"
    using station_iteration_returns by blast
  with Cons.IH [of w1] show ?case by simp
qed

lemma getopt_loop_None:
  "getopt_loop opts decoded tafs = None \<longleftrightarrow> (\<exists>ch \<in> set opts. ch \<noteq> CHR ''d'' \<and> ch \<noteq> CHR ''t'')"
  by (induction opts arbitrary: decoded tafs) auto

section \<open>Stations that fail validation\<close>

text \<open>
  C3. A station whose length is neither 3 nor 4 makes formURL fail with the length
  diagnostic; a station of length 3 or 4 with a character that is not alphanumeric makes
  it fail with the alphanumeric diagnostic; the two diagnostics differ. In both cases the
  iteration of main only adds that diagnostic to standard error, makes no request and
  prints nothing, and the loop goes on with the remaining stations.
\<close>

theorem invalid_station_rejected:
  assumes "length buf = URL_BUFFER_LEN"
  shows "(length station \<noteq> 3 \<and> length station \<noteq> 4 \<longrightarrow>
            formURL buf URL_BUFFER_LEN type station =
              Inr (False, buf, [''Station ID must be either three or four characters long.''])
          \<and> stations_loop e decoded tafs (station # rest) w =
              stations_loop e decoded tafs rest
                (w\<lparr>stderr := stderr w
                     @ [''Station ID must be either three or four characters long.'']\<rparr>))
    \<and> ((length station = 3 \<or> length station = 4) \<and> (\<exists>c \<in> set station. \<not> isalnum c) \<longrightarrow>
            (\<exists>buf'. formURL buf URL_BUFFER_LEN type station =
              Inr (False, buf', [''Station ID must contain only alphanumeric characters.'']))
          \<and> stations_loop e decoded tafs (station # rest) w =
              stations_loop e decoded tafs rest
                (w\<lparr>stderr := stderr w
                     @ [''Station ID must contain only alphanumeric characters.'']\<rparr>))
    \<and> ''Station ID must be either three or four characters long.''
        \<noteq> ''Station ID must contain only alphanumeric characters.''"
proof (intro conjI impI)
  assume "length station \<noteq> 3 \<and> length station \<noteq> 4"
  then have l: "length station \<noteq> 3" "length station \<noteq> 4" by simp_all
  show "formURL buf URL_BUFFER_LEN type station =
      Inr (False, buf, [''Station ID must be either three or four characters long.''])"
    using l by (rule formURL_bad_length)
  show "stations_loop e decoded tafs (station # rest) w =
      stations_loop e decoded tafs rest
        (w\<lparr>stderr := stderr w @ [''Station ID must be either three or four characters long.'']\<rparr>)"
    by (simp add: station_iteration_bad_length [OF l] warnx_def)
next
  assume a: "(length station = 3 \<or> length station = 4) \<and> (\<exists>c \<in> set station. \<not> isalnum c)"
  then have len: "length station = 3 \<or> length station = 4"
    and bad: "\<exists>c \<in> set station. \<not> isalnum c" by simp_all
  show "\<exists>buf'. formURL buf URL_BUFFER_LEN type station =
      Inr (False, buf', [''Station ID must contain only alphanumeric characters.''])"
    using formURL_bad_char [OF len bad assms url_prefix_length] by blast
  show "stations_loop e decoded tafs (station # rest) w =
      stations_loop e decoded tafs rest
        (w\<lparr>stderr := stderr w @ [''Station ID must contain only alphanumeric characters.'']\<rparr>)"
    by (simp add: station_iteration_bad_char [OF len bad] warnx_def)
next
  show "''Station ID must be either three or four characters long.''
        \<noteq> ''Station ID must contain only alphanumeric characters.''"
    by simp
qed

theorem invalid_station_rejected_witness:
  "length (replicate 68 (CHR ''?'')) = URL_BUFFER_LEN
   \<and> formURL (replicate 68 (CHR ''?'')) URL_BUFFER_LEN METAR ''BOGUS1'' =
       Inr (False, replicate 68 (CHR ''?''),
            [''Station ID must be either three or four characters long.''])
   \<and> stations_loop (example_env True []) False False [''BOGUS1'']
         \<lparr>stdout = [], stderr = [], requests = []\<rparr> =
       Inr \<lparr>stdout = [], stderr = [''Station ID must be either three or four characters long.''],
            requests = []\<rparr>
   \<and> (\<exists>buf'. formURL (replicate 68 (CHR ''?'')) URL_BUFFER_LEN METAR ''KJ-K'' =
         Inr (False, buf', [''Station ID must contain only alphanumeric characters.'']))
   \<and> stations_loop (example_env True []) False False [''KJ-K'']
         \<lparr>stdout = [], stderr = [], requests = []\<rparr> =
       Inr \<lparr>stdout = [], stderr = [''Station ID must contain only alphanumeric characters.''],
            requests = []\<rparr>"
proof -
  have h: "length (replicate 68 (CHR ''?'')) = URL_BUFFER_LEN"
    by (simp add: URL_BUFFER_LEN_eq)
  have b: "\<exists>c \<in> set ''KJ-K''. \<not> isalnum c"
    by (simp add: isalnum_def)
  show ?thesis
    using h b
      invalid_station_rejected [OF h, of "''BOGUS1''" METAR "example_env True []" False False "[]"
        "\<lparr>stdout = [], stderr = [], requests = []\<rparr>"]
      invalid_station_rejected [OF h, of "''KJ-K''" METAR "example_env True []" False False "[]"
        "\<lparr>stdout = [], stderr = [], requests = []\<rparr>"]
    by simp
qed


lemma spec_classify_cases:
  "spec_classify res response = NotFound \<longleftrightarrow>
     res = CURLE_REMOTE_FILE_NOT_FOUND \<or> response = 404"
  "spec_classify res response = TransportError \<longleftrightarrow>
     \<not> (res = CURLE_REMOTE_FILE_NOT_FOUND \<or> response = 404) \<and> res \<noteq> CURLE_OK"
  "spec_classify res response = Success \<longleftrightarrow> res = CURLE_OK \<and> response \<noteq> 404"
  by (auto simp: spec_classify_def CURLE_OK_def CURLE_REMOTE_FILE_NOT_FOUND_def)

lemma stations_loop_valid:
  assumes "valid_station station"
    and "curl_easy_perform e (station_url (primary_kind decoded) station) w = (w1, res, response)"
  shows "stations_loop e decoded tafs (station # rest) w =
    (case spec_classify res response of
       NotFound \<Rightarrow>
         stations_loop e decoded tafs rest
           (w1\<lparr>stderr := stderr w1
                 @ [''Station ID '' @ [CHR 0x22] @ station @ [CHR 0x22] @ '' not found'']\<rparr>)
     | TransportError \<Rightarrow>
         stations_loop e decoded tafs rest
           (w1\<lparr>stderr := stderr w1
                 @ [curl_easy_strerror e res,
                    ''Unable to fetch information for station ID '' @ [CHR 0x22] @ station
                      @ [CHR 0x22]]\<rparr>)
     | Success \<Rightarrow>
         stations_loop e decoded tafs rest
           (if tafs then fst (curl_easy_perform e (station_url TAF station) w1) else w1))"
proof (cases "spec_classify res response")
  case Success
  then have "res = CURLE_OK" "response \<noteq> 404"
    by (simp_all add: spec_classify_cases)
  then show ?thesis
    using Success assms(2)
    by (simp add: station_iteration_valid [OF assms(1)] HTTP_RESPONSE_NOT_FOUND_def
        CURLE_OK_def CURLE_REMOTE_FILE_NOT_FOUND_def)
next
  case NotFound
  then have "res = CURLE_REMOTE_FILE_NOT_FOUND \<or> response = 404"
    by (simp add: spec_classify_cases)
  then show ?thesis
    using NotFound assms(2)
    by (auto simp add: station_iteration_valid [OF assms(1)] HTTP_RESPONSE_NOT_FOUND_def warnx_def)
next
  case TransportError
  then have "\<not> (res = CURLE_REMOTE_FILE_NOT_FOUND \<or> response = 404)" "res \<noteq> CURLE_OK"
    by (simp_all add: spec_classify_cases)
  then show ?thesis
    using TransportError assms(2)
    by (simp add: station_iteration_valid [OF assms(1)] HTTP_RESPONSE_NOT_FOUND_def warnx_def)
qed

section \<open>The classification of the primary fetch\<close>

text \<open>
  C5. For a valid station, the iteration makes one primary request and then behaves by
  the specification's classification of its result: on NotFound (the transport reports
  that the remote file was not found, or the status is 404) it prints the diagnostic naming
  the station and goes on; otherwise on TransportError (any other failure) it prints the
  transport's description and the diagnostic naming the station and goes on; otherwise, on
  Success, it prints no diagnostic.
\<close>

theorem primary_fetch_classified:
  assumes "valid_station station"
    and "curl_easy_perform e (station_url (primary_kind decoded) station) w = (w1, res, response)"
  shows "stations_loop e decoded tafs (station # rest) w =
      (case spec_classify res response of
         NotFound \<Rightarrow>
           stations_loop e decoded tafs rest
             (w1\<lparr>stderr := stderr w1
                   @ [''Station ID '' @ [CHR 0x22] @ station @ [CHR 0x22] @ '' not found'']\<rparr>)
       | TransportError \<Rightarrow>
           stations_loop e decoded tafs rest
             (w1\<lparr>stderr := stderr w1
                   @ [curl_easy_strerror e res,
                      ''Unable to fetch information for station ID '' @ [CHR 0x22] @ station
                        @ [CHR 0x22]]\<rparr>)
       | Success \<Rightarrow>
           stations_loop e decoded tafs rest
             (if tafs then fst (curl_easy_perform e (station_url TAF station) w1) else w1))
    \<and> stderr w1 = stderr w
    \<and> requests w1 = requests w @ [station_url (primary_kind decoded) station]
    \<and> (spec_classify res response = NotFound \<longleftrightarrow>
          res = CURLE_REMOTE_FILE_NOT_FOUND \<or> response = 404)
    \<and> (spec_classify res response = TransportError \<longleftrightarrow>
          \<not> (res = CURLE_REMOTE_FILE_NOT_FOUND \<or> response = 404) \<and> res \<noteq> CURLE_OK)
    \<and> (spec_classify res response = Success \<longleftrightarrow> res = CURLE_OK \<and> response \<noteq> 404)"
  using stations_loop_valid [OF assms] curl_easy_perform_world(1,2) [OF assms(2)]
    spec_classify_cases [of res response]
  by simp

lemma valid_examples: "valid_station ''KJFK''" "valid_station ''lax''"
  by (simp_all add: valid_station_def isalnum_def)

lemma station_url_examples:
  "station_url METAR ''KJFK'' = ''http://tgftp.nws.noaa.gov/data/observations/metar/stations/KJFK.TXT''"
  "station_url TAF ''KJFK'' = ''http://tgftp.nws.noaa.gov/data/forecasts/taf/stations/KJFK.TXT''"
  "station_url METAR ''lax'' = ''http://tgftp.nws.noaa.gov/data/observations/metar/stations/KLAX.TXT''"
  by (simp_all add: station_url_def url_prefix_def URL_PREFIX_METAR_def URL_PREFIX_TAF_def
      station_field_def DEFAULT_STATION_PREFIX_def toupper_examples URL_EXTENSION_def)

theorem primary_fetch_classified_witness:
  "stations_loop (example_env True [no_call 22 404, one_call ''gone'' 4 7 0]) False False
       [''KJFK'', ''lax''] \<lparr>stdout = [], stderr = [], requests = []\<rparr> =
     Inr \<lparr>stdout = ''gone'',
          stderr = [''Station ID '' @ [CHR 0x22] @ ''KJFK'' @ [CHR 0x22] @ '' not found'',
                    ''transfer failed'',
                    ''Unable to fetch information for station ID '' @ [CHR 0x22] @ ''lax''
                      @ [CHR 0x22]],
          requests = [station_url METAR ''KJFK'', station_url METAR ''lax'']\<rparr>"
proof -
  let ?e = "example_env True [no_call 22 404, one_call ''gone'' 4 7 0]"
  let ?w0 = "\<lparr>stdout = [], stderr = [], requests = []\<rparr>"
  let ?w1 = "\<lparr>stdout = [], stderr = [], requests = [station_url METAR ''KJFK'']\<rparr>"
  let ?w1' = "\<lparr>stdout = [],
      stderr = [''Station ID '' @ [CHR 0x22] @ ''KJFK'' @ [CHR 0x22] @ '' not found''],
      requests = [station_url METAR ''KJFK'']\<rparr>"
  let ?w2 = "\<lparr>stdout = ''gone'',
      stderr = [''Station ID '' @ [CHR 0x22] @ ''KJFK'' @ [CHR 0x22] @ '' not found''],
      requests = [station_url METAR ''KJFK'', station_url METAR ''lax'']\<rparr>"
  have p1: "curl_easy_perform ?e (station_url (primary_kind False) ''KJFK'') ?w0 = (?w1, 22, 404)"
    by (simp add: curl_easy_perform_def example_env_def answers_def no_call_def printed_def
        primary_kind_def)
  have p2: "curl_easy_perform ?e (station_url (primary_kind False) ''lax'') ?w1' = (?w2, 7, 0)"
    by (simp add: curl_easy_perform_def example_env_def answers_def one_call_def printed_def
        printData_def cstr_def NUL_def primary_kind_def)
  show ?thesis
    using primary_fetch_classified [OF valid_examples(1) p1, of False "[''lax'']"]
      primary_fetch_classified [OF valid_examples(2) p2, of False "[]"]
    by (simp add: spec_classify_def CURLE_OK_def CURLE_REMOTE_FILE_NOT_FOUND_def example_env_def)
qed

section \<open>The exit status\<close>

lemma main_status:
  "snd (main e opts args) =
     (if getopt_loop opts False False = None \<or> args = [] then Returned EX_USAGE
      else if \<not> curl_easy_init_ok e then Returned EX_SOFTWARE
      else Returned EX_OK)"
proof (cases "getopt_loop opts False False")
  case None
  then show ?thesis
    by (simp add: main_def usage_def Let_def)
next
  case (Some flags)
  obtain decoded tafs where flags: "flags = (decoded, tafs)"
    by (cases flags) auto
  obtain w' where "stations_loop e decoded tafs args
      \<lparr>stdout = [], stderr = [], requests = []\<rparr> = Inr w'"
    using stations_loop_returns by blast
  then show ?thesis
    using Some flags by (simp add: main_def usage_def Let_def)
qed

text \<open>
  C6, as amended. main returns the usage status EX_USAGE when \<open>getopt\<close> reports an
  unrecognised option or no station argument is left; when \<open>curl_easy_init\<close> fails it
  returns the different status EX_SOFTWARE and has written nothing, no usage text either;
  in every other case it returns EX_OK, whatever happens to the single stations. The run
  never ends in a fault.
\<close>

theorem main_exit_status:
  "snd (main e opts args) =
     (if (\<exists>ch \<in> set opts. ch \<noteq> CHR ''d'' \<and> ch \<noteq> CHR ''t'') \<or> args = [] then Returned EX_USAGE
      else if \<not> curl_easy_init_ok e then Returned EX_SOFTWARE
      else Returned EX_OK)
   \<and> EX_USAGE \<noteq> EX_OK \<and> EX_SOFTWARE \<noteq> EX_OK \<and> EX_SOFTWARE \<noteq> EX_USAGE
   \<and> (\<not> (\<exists>ch \<in> set opts. ch \<noteq> CHR ''d'' \<and> ch \<noteq> CHR ''t'') \<and> args \<noteq> []
        \<and> \<not> curl_easy_init_ok e \<longrightarrow>
      fst (main e opts args) = \<lparr>stdout = [], stderr = [], requests = []\<rparr>)"
proof -
  have silent: "fst (main e opts args) = \<lparr>stdout = [], stderr = [], requests = []\<rparr>"
    if "getopt_loop opts False False \<noteq> None" "args \<noteq> []" "\<not> curl_easy_init_ok e"
    using that by (auto simp: main_def Let_def)
  show ?thesis
    using main_status [of e opts args] getopt_loop_None [of opts False False] silent
    by (simp add: EX_OK_def EX_USAGE_def EX_SOFTWARE_def)
qed

theorem main_exit_status_witness:
  "snd (main (example_env True [no_call 22 404]) ''dt'' [''KJFK'', ''BOGUS1'']) = Returned EX_OK
   \<and> snd (main (example_env True []) ''dx'' [''KJFK'']) = Returned EX_USAGE
   \<and> snd (main (example_env True []) ''d'' []) = Returned EX_USAGE
   \<and> snd (main (example_env False []) ''t'' [''KJFK'']) = Returned EX_SOFTWARE
   \<and> fst (main (example_env False []) ''t'' [''KJFK'']) =
       \<lparr>stdout = [], stderr = [], requests = []\<rparr>"
  using main_exit_status [of "example_env True [no_call 22 404]" "''dt''" "[''KJFK'', ''BOGUS1'']"]
    main_exit_status [of "example_env True []" "''dx''" "[''KJFK'']"]
    main_exit_status [of "example_env True []" "''d''" "[]"]
    main_exit_status [of "example_env False []" "''t''" "[''KJFK'']"]
  by (simp add: example_env_def)

theorem client_failure_status_counterexample:
  "main (example_env False []) [] [''KJFK''] =
     (\<lparr>stdout = [], stderr = [], requests = []\<rparr>, Returned EX_SOFTWARE)
   \<and> snd (main (example_env False []) [] [''KJFK'']) \<noteq> Returned EX_USAGE"
  by (simp add: main_def Let_def example_env_def EX_SOFTWARE_def EX_USAGE_def)

section \<open>What the write callback prints\<close>

text \<open>
  C7. The callback prints the received bytes as a C string. On a body that holds a NUL
  byte, here the five bytes A, B, NUL, C, D of a transfer classified as Success, the run
  prints only \<open>AB\<close>; on five received bytes that other bytes follow in memory before the
  next NUL, it prints those bytes too. In both cases it reports all five bytes as written.
\<close>

theorem printData_stops_at_NUL:
  "received \<lparr>wc_contents = [CHR ''A'', CHR ''B'', NUL, CHR ''C'', CHR ''D''],
             wc_size = 1, wc_nmemb = 5\<rparr> = [CHR ''A'', CHR ''B'', NUL, CHR ''C'', CHR ''D'']
   \<and> printData [CHR ''A'', CHR ''B'', NUL, CHR ''C'', CHR ''D''] 1 5 = (''AB'', 5)
   \<and> spec_classify 0 200 = Success
   \<and> main (example_env True [one_call [CHR ''A'', CHR ''B'', NUL, CHR ''C'', CHR ''D''] 5 0 200])
        [] [''KJFK''] =
       (\<lparr>stdout = ''AB'', stderr = [], requests = [station_url METAR ''KJFK'']\<rparr>, Returned EX_OK)
   \<and> printData (''METAR'' @ ''junk'') 1 5 = (''METARjunk'', 5)"
proof -
  let ?b = "[CHR ''A'', CHR ''B'', NUL, CHR ''C'', CHR ''D'']"
  let ?e = "example_env True [one_call ?b 5 0 200]"
  have "station_iteration ?e False False ''KJFK'' \<lparr>stdout = [], stderr = [], requests = []\<rparr> =
      Inr \<lparr>stdout = ''AB'', stderr = [], requests = [station_url METAR ''KJFK'']\<rparr>"
    by (simp add: station_iteration_valid [OF valid_examples(1)] curl_easy_perform_def
        example_env_def answers_def one_call_def printed_def printData_def cstr_def NUL_def
        primary_kind_def CURLE_OK_def CURLE_REMOTE_FILE_NOT_FOUND_def HTTP_RESPONSE_NOT_FOUND_def)
  then have "main ?e [] [''KJFK''] =
      (\<lparr>stdout = ''AB'', stderr = [], requests = [station_url METAR ''KJFK'']\<rparr>, Returned EX_OK)"
    by (simp add: main_def Let_def example_env_def)
  then show ?thesis
    by (simp add: received_def printData_def cstr_def NUL_def spec_classify_def CURLE_OK_def
        CURLE_REMOTE_FILE_NOT_FOUND_def)
qed


lemma printed_eq_body:
  assumes "\<forall>c \<in> set (calls t). cstr (wc_contents c) = received c"
  shows "printed t = body t"
proof -
  have "map (\<lambda>c. fst (printData (wc_contents c) (wc_size c) (wc_nmemb c))) (calls t)
      = map received (calls t)"
    using assms by (intro map_cong) (simp_all add: printData_def)
  then show ?thesis
    by (simp only: printed_def body_def)
qed

lemma station_iteration_success:
  assumes v: "valid_station station"
    and p: "curl_easy_perform e (station_url (primary_kind decoded) station) w = (w1, res, response)"
    and s: "spec_classify res response = Success"
  shows "station_iteration e decoded tafs station w =
    Inr (if tafs then fst (curl_easy_perform e (station_url TAF station) w1) else w1)"
proof -
  from s have "res = CURLE_OK" "response \<noteq> 404"
    by (simp_all add: spec_classify_cases)
  then show ?thesis
    using p by (simp add: station_iteration_valid [OF v] HTTP_RESPONSE_NOT_FOUND_def
        CURLE_OK_def CURLE_REMOTE_FILE_NOT_FOUND_def)
qed

section \<open>The secondary fetch\<close>

text \<open>
  C10. When the primary call of formURL in an iteration has succeeded, the call for the TAF
  URL on the same station succeeds too and builds the TAF URL, whatever the buffer holds;
  so when \<open>-t\<close> is set and the primary fetch is classified as Success, the iteration
  always makes the second request.
\<close>

theorem secondary_url_never_fails:
  assumes "formURL (map (uninit e) [0..<URL_BUFFER_LEN]) URL_BUFFER_LEN
      (if decoded then Decoded else METAR) station = Inr (True, url, ws)"
  shows "(\<exists>url2. formURL url URL_BUFFER_LEN TAF station = Inr (True, url2, [])
            \<and> cstr url2 = station_url TAF station)
    \<and> (\<forall>w w1 res response.
          curl_easy_perform e (cstr url) w = (w1, res, response)
          \<and> spec_classify res response = Success \<longrightarrow>
          (\<exists>w2. station_iteration e decoded True station w = Inr w2
             \<and> requests w2 = requests w @ [cstr url, station_url TAF station]))"
proof -
  have l0: "length (map (uninit e) [0..<URL_BUFFER_LEN]) = URL_BUFFER_LEN"
    by simp
  have v: "valid_station station"
    using l0 assms by (rule formURL_success_valid)
  obtain buf' where "formURL (map (uninit e) [0..<URL_BUFFER_LEN]) URL_BUFFER_LEN
      (if decoded then Decoded else METAR) station = Inr (True, buf', [])"
    and "length buf' = URL_BUFFER_LEN"
    and "cstr buf' = station_url (if decoded then Decoded else METAR) station"
    using formURL_valid_url [OF v l0] by blast
  with assms have l1: "length url = URL_BUFFER_LEN"
    and c1: "cstr url = station_url (primary_kind decoded) station"
    by (simp_all add: primary_kind_def)
  have first: "\<exists>url2. formURL url URL_BUFFER_LEN TAF station = Inr (True, url2, [])
      \<and> cstr url2 = station_url TAF station"
    using formURL_valid_url [OF v l1, of TAF] by blast
  have second: "\<exists>w2. station_iteration e decoded True station w = Inr w2
      \<and> requests w2 = requests w @ [cstr url, station_url TAF station]"
    if p: "curl_easy_perform e (cstr url) w = (w1, res, response)"
      and s: "spec_classify res response = Success" for w w1 res response
  proof -
    from p have p': "curl_easy_perform e (station_url (primary_kind decoded) station) w
        = (w1, res, response)"
      by (simp only: c1)
    have "station_iteration e decoded True station w =
        Inr (fst (curl_easy_perform e (station_url TAF station) w1))"
      using station_iteration_success [OF v p' s, of True] by simp
    moreover have "requests (fst (curl_easy_perform e (station_url TAF station) w1)) =
        requests w @ [cstr url, station_url TAF station]"
      using curl_easy_perform_world(2) [OF p]
      by (simp add: curl_easy_perform_def Let_def)
    ultimately show ?thesis by simp
  qed
  from first second show ?thesis by blast
qed

theorem secondary_url_never_fails_witness:
  "formURL (map (uninit (example_env True [one_call ''m'' 1 0 200, no_call 22 404]))
        [0..<URL_BUFFER_LEN]) URL_BUFFER_LEN METAR ''KJFK'' =
      Inr (True, station_url METAR ''KJFK'' @ [NUL], [])
   \<and> (\<exists>url2. formURL (station_url METAR ''KJFK'' @ [NUL]) URL_BUFFER_LEN TAF ''KJFK'' =
          Inr (True, url2, [])
        \<and> cstr url2 = ''http://tgftp.nws.noaa.gov/data/forecasts/taf/stations/KJFK.TXT'')
   \<and> (\<exists>w2. station_iteration (example_env True [one_call ''m'' 1 0 200, no_call 22 404])
          False True ''KJFK'' \<lparr>stdout = [], stderr = [], requests = []\<rparr> = Inr w2
        \<and> requests w2 = [station_url METAR ''KJFK'', station_url TAF ''KJFK''])"
proof -
  let ?e = "example_env True [one_call ''m'' 1 0 200, no_call 22 404]"
  let ?w0 = "\<lparr>stdout = [], stderr = [], requests = []\<rparr>"
  let ?url = "station_url METAR ''KJFK'' @ [NUL]"
  have "formURL (map (uninit ?e) [0..<URL_BUFFER_LEN]) URL_BUFFER_LEN METAR ''KJFK'' =
      Inr (True, url_prefix METAR @ station_field ''KJFK'' @ URL_EXTENSION
                 @ replicate (URL_BUFFER_LEN - (length (url_prefix METAR) + 8)) NUL, [])"
    using url_prefix_length [of METAR] by (intro formURL_valid valid_examples) simp_all
  moreover have "URL_BUFFER_LEN - (length (url_prefix METAR) + 8) = 1"
    by (simp add: URL_BUFFER_LEN_eq url_prefix_def prefix_lengths)
  ultimately have f: "formURL (map (uninit ?e) [0..<URL_BUFFER_LEN]) URL_BUFFER_LEN
      (if False then Decoded else METAR) ''KJFK'' = Inr (True, ?url, [])"
    by (simp add: station_url_def)
  have c: "cstr ?url = station_url METAR ''KJFK''"
    using cstr_padded [OF station_url_no_NUL, of "''KJFK''" METAR 1]
    by (simp add: isalnum_def)
  have p: "curl_easy_perform ?e (cstr ?url) ?w0 =
      (\<lparr>stdout = ''m'', stderr = [], requests = [station_url METAR ''KJFK'']\<rparr>, 0, 200)"
    unfolding c
    by (simp add: curl_easy_perform_def example_env_def answers_def one_call_def printed_def
        printData_def cstr_def NUL_def)
  have s: "spec_classify 0 200 = Success"
    by (simp add: spec_classify_def CURLE_OK_def CURLE_REMOTE_FILE_NOT_FOUND_def)
  from secondary_url_never_fails [OF f] p s
  have "(\<exists>url2. formURL ?url URL_BUFFER_LEN TAF ''KJFK'' = Inr (True, url2, [])
          \<and> cstr url2 = station_url TAF ''KJFK'')"
    and "\<exists>w2. station_iteration ?e False True ''KJFK'' ?w0 = Inr w2
          \<and> requests w2 = requests ?w0 @ [cstr ?url, station_url TAF ''KJFK'']"
    by blast+
  then show ?thesis
    using f c by (simp add: station_url_examples)
qed


lemma taf_fetch_iteration:
  assumes "valid_station station"
    and "curl_easy_perform e (station_url (primary_kind decoded) station) w = (w1, res, response)"
    and "spec_classify res response = Success"
  shows "\<exists>w2. station_iteration e decoded True station w = Inr w2
      \<and> requests w2 =
          requests w @ [station_url (primary_kind decoded) station, station_url TAF station]
      \<and> stdout w2 = stdout w1 @ printed (net e (length (requests w1)) (station_url TAF station))
      \<and> ((\<forall>c \<in> set (calls (net e (length (requests w1)) (station_url TAF station))).
              cstr (wc_contents c) = received c) \<longrightarrow>
           stdout w2 = stdout w1 @ body (net e (length (requests w1)) (station_url TAF station)))
      \<and> stderr w2 = stderr w
      \<and> (\<forall>opts args d. curl_easy_init_ok e \<and> getopt_loop opts False False = Some (d, True)
             \<and> args \<noteq> [] \<longrightarrow> snd (main e opts args) = Returned EX_OK)"
proof -
  let ?t2 = "net e (length (requests w1)) (station_url TAF station)"
  let ?w2 = "fst (curl_easy_perform e (station_url TAF station) w1)"
  have it: "station_iteration e decoded True station w = Inr ?w2"
    using station_iteration_success [OF assms, of True] by simp
  have r: "requests ?w2 =
      requests w @ [station_url (primary_kind decoded) station, station_url TAF station]"
    using curl_easy_perform_world(2) [OF assms(2)] by (simp add: curl_easy_perform_def Let_def)
  have out: "stdout ?w2 = stdout w1 @ printed ?t2"
    by (simp add: curl_easy_perform_def Let_def)
  have err: "stderr ?w2 = stderr w"
    using curl_easy_perform_world(1) [OF assms(2)] by (simp add: curl_easy_perform_def Let_def)
  have exact: "stdout ?w2 = stdout w1 @ body ?t2"
    if "\<forall>c \<in> set (calls ?t2). cstr (wc_contents c) = received c"
    using out printed_eq_body [OF that] by simp
  have status: "snd (main e opts args) = Returned EX_OK"
    if "curl_easy_init_ok e \<and> getopt_loop opts False False = Some (d, True) \<and> args \<noteq> []"
    for opts args d
    using that main_status [of e opts args] by simp
  from it r out err exact status show ?thesis
    by blast
qed

text \<open>
  C8. With \<open>-t\<close> set and a primary fetch classified as Success, the run makes one more
  request, to the TAF URL, and passes what that transfer delivers to the same write
  callback. On a successful TAF transfer whose body is the five bytes T, A, NUL, F and a
  line feed, only \<open>TA\<close> reaches standard output after the primary body \<open>m\<close>: the body is
  not written as received. Nothing is written to standard error and the status is EX_OK.
\<close>

theorem taf_body_stops_at_NUL:
  "body (one_call [CHR ''T'', CHR ''A'', NUL, CHR ''F'', CHR 0x0A] 5 0 200) =
     [CHR ''T'', CHR ''A'', NUL, CHR ''F'', CHR 0x0A]
   \<and> spec_classify 0 200 = Success
   \<and> main (example_env True
             [one_call ''m'' 1 0 200,
              one_call [CHR ''T'', CHR ''A'', NUL, CHR ''F'', CHR 0x0A] 5 0 200])
        ''t'' [''KJFK''] =
       (\<lparr>stdout = ''mTA'', stderr = [],
         requests = [station_url METAR ''KJFK'', station_url TAF ''KJFK'']\<rparr>,
        Returned EX_OK)"
proof -
  let ?b = "[CHR ''T'', CHR ''A'', NUL, CHR ''F'', CHR 0x0A]"
  let ?e = "example_env True [one_call ''m'' 1 0 200, one_call ?b 5 0 200]"
  have "station_iteration ?e False True ''KJFK'' \<lparr>stdout = [], stderr = [], requests = []\<rparr> =
      Inr \<lparr>stdout = ''mTA'', stderr = [],
           requests = [station_url METAR ''KJFK'', station_url TAF ''KJFK'']\<rparr>"
    by (simp add: station_iteration_valid [OF valid_examples(1)] curl_easy_perform_def
        example_env_def answers_def one_call_def printed_def printData_def cstr_def NUL_def
        primary_kind_def CURLE_OK_def CURLE_REMOTE_FILE_NOT_FOUND_def HTTP_RESPONSE_NOT_FOUND_def)
  then have "main ?e ''t'' [''KJFK''] =
      (\<lparr>stdout = ''mTA'', stderr = [],
         requests = [station_url METAR ''KJFK'', station_url TAF ''KJFK'']\<rparr>,
        Returned EX_OK)"
    by (simp add: main_def Let_def example_env_def)
  then show ?thesis
    by (simp add: body_def received_def one_call_def spec_classify_def CURLE_OK_def
        CURLE_REMOTE_FILE_NOT_FOUND_def)
qed

section \<open>The output of a run\<close>

lemma station_iteration_output:
  assumes "\<forall>k url. \<forall>c \<in> set (calls (net e k url)). cstr (wc_contents c) = received c"
  shows "\<exists>w'. station_iteration e decoded tafs station w = Inr w'
     \<and> stdout w' = stdout w @ spec_station_output e decoded tafs station (length (requests w))
     \<and> length (requests w') =
         length (requests w) + spec_station_requests e decoded tafs station (length (requests w))"
proof (cases "valid_station station")
  case True
  have pb: "printed (net e k url) = body (net e k url)" for k url
    using assms by (intro printed_eq_body) blast
  obtain w1 res response where
    p: "curl_easy_perform e (station_url (primary_kind decoded) station) w = (w1, res, response)"
    by (cases "curl_easy_perform e (station_url (primary_kind decoded) station) w") auto
  note pw = curl_easy_perform_world [OF p]
  show ?thesis
  proof (cases "spec_classify res response = Success")
    case s: True
    show ?thesis
      using True s pw station_iteration_success [OF True p s, of tafs]
      by (simp add: spec_station_output_def spec_station_requests_def Let_def
          curl_easy_perform_def pb)
  next
    case ns: False
    then have "res = CURLE_REMOTE_FILE_NOT_FOUND \<or> response = 404 \<or> res \<noteq> CURLE_OK"
      using spec_classify_cases(3) [of res response] by auto
    then show ?thesis
      using True ns pw p
      by (auto simp add: station_iteration_valid [OF True] spec_station_output_def
          spec_station_requests_def Let_def warnx_def HTTP_RESPONSE_NOT_FOUND_def pb)
  qed
next
  case False
  show ?thesis
  proof (cases "length station = 3 \<or> length station = 4")
    case len: True
    with False have "\<exists>c \<in> set station. \<not> isalnum c"
      by (auto simp: valid_station_def)
    with len False show ?thesis
      by (simp add: station_iteration_bad_char spec_station_output_def
          spec_station_requests_def warnx_def)
  next
    case len: False
    with False show ?thesis
      by (simp add: station_iteration_bad_length spec_station_output_def
          spec_station_requests_def warnx_def)
  qed
qed

lemma stations_loop_output:
  assumes "\<forall>k url. \<forall>c \<in> set (calls (net e k url)). cstr (wc_contents c) = received c"
  shows "\<exists>w'. stations_loop e decoded tafs stations w = Inr w'
     \<and> stdout w' = stdout w @ spec_run_output e decoded tafs stations (length (requests w))"
proof (induction stations arbitrary: w)
  case Nil
  show ?case by simp
next
  case (Cons station rest)
  obtain w1 where it: "station_iteration e decoded tafs station w = Inr w1"
    and out: "stdout w1 =
      stdout w @ spec_station_output e decoded tafs station (length (requests w))"
    and n: "length (requests w1) =
      length (requests w) + spec_station_requests e decoded tafs station (length (requests w))"
    using station_iteration_output [OF assms, of decoded tafs station w] by blast
  obtain w' where "stations_loop e decoded tafs rest w1 = Inr w'"
    and "stdout w' = stdout w1 @ spec_run_output e decoded tafs rest (length (requests w1))"
    using Cons.IH [of w1] by blast
  then show ?case
    using it out n by simp
qed

text \<open>
  C9, as amended. The loop handles the stations in the order given and always reaches the
  end of the list. When every call of the write callback holds the bytes it delivers as a
  C string, standard output grows by the contribution of each station in turn: nothing for
  a station that fails validation, otherwise the body of its primary transfer (also when
  that transfer is then classified as NotFound or TransportError), followed by the body of
  its TAF transfer when \<open>-t\<close> is set and the primary fetch was classified as Success. A
  run of main whose options parse, with at least one station and a working client, prints
  exactly that and returns EX_OK.
\<close>

theorem stations_output_in_order:
  assumes "\<forall>k url. \<forall>c \<in> set (calls (net e k url)). cstr (wc_contents c) = received c"
  shows "(\<exists>w'. stations_loop e decoded tafs stations w = Inr w'
            \<and> stdout w' =
                stdout w @ spec_run_output e decoded tafs stations (length (requests w)))
    \<and> (curl_easy_init_ok e \<and> getopt_loop opts False False = Some (decoded, tafs)
          \<and> stations \<noteq> [] \<longrightarrow>
        stdout (fst (main e opts stations)) = spec_run_output e decoded tafs stations 0
        \<and> snd (main e opts stations) = Returned EX_OK)"
proof -
  have loop: "\<exists>w'. stations_loop e decoded tafs stations w = Inr w'
      \<and> stdout w' = stdout w @ spec_run_output e decoded tafs stations (length (requests w))"
    using assms by (rule stations_loop_output)
  have run: "stdout (fst (main e opts stations)) = spec_run_output e decoded tafs stations 0
      \<and> snd (main e opts stations) = Returned EX_OK"
    if a: "curl_easy_init_ok e \<and> getopt_loop opts False False = Some (decoded, tafs)
      \<and> stations \<noteq> []"
  proof -
    obtain w' where l: "stations_loop e decoded tafs stations
          \<lparr>stdout = [], stderr = [], requests = []\<rparr> = Inr w'"
      and o: "stdout w' = stdout \<lparr>stdout = [], stderr = [], requests = []\<rparr>
          @ spec_run_output e decoded tafs stations
              (length (requests \<lparr>stdout = [], stderr = [], requests = []\<rparr>))"
      using stations_loop_output [OF assms] by blast
    from a l have "main e opts stations = (w', Returned EX_OK)"
      by (simp add: main_def Let_def)
    with o show ?thesis
      by simp
  qed
  from loop run show ?thesis
    by blast
qed

theorem stations_output_in_order_witness:
  "stdout (fst (main (example_env True
                       [one_call ''A'' 1 0 200, no_call 22 404, one_call ''C'' 1 28 200])
                  ''t'' [''KJFK'', ''BOGUS1'', ''lax''])) = ''AC''
   \<and> snd (main (example_env True
                  [one_call ''A'' 1 0 200, no_call 22 404, one_call ''C'' 1 28 200])
             ''t'' [''KJFK'', ''BOGUS1'', ''lax'']) = Returned EX_OK"
proof -
  let ?ts = "[one_call ''A'' 1 0 200, no_call 22 404, one_call ''C'' 1 28 200]"
  let ?e = "example_env True ?ts"
  have "\<forall>c \<in> set (calls (answers ?ts k url)). cstr (wc_contents c) = received c" for k url
  proof (cases "k < length ?ts")
    case True
    then have "k = 0 \<or> k = 1 \<or> k = 2" by auto
    then show ?thesis
      by (auto simp: answers_def one_call_def no_call_def cstr_def received_def NUL_def)
  next
    case False
    then show ?thesis
      by (simp add: answers_def no_call_def)
  qed
  then have h: "\<forall>k url. \<forall>c \<in> set (calls (net ?e k url)). cstr (wc_contents c) = received c"
    by (simp add: example_env_def)
  have g: "curl_easy_init_ok ?e \<and> getopt_loop ''t'' False False = Some (False, True)
      \<and> [''KJFK'', ''BOGUS1'', ''lax''] \<noteq> []"
    by (simp add: example_env_def)
  have "\<not> valid_station ''BOGUS1''"
    by (simp add: valid_station_def)
  then have "spec_run_output ?e False True [''KJFK'', ''BOGUS1'', ''lax''] 0 = ''AC''"
    by (simp add: spec_station_output_def spec_station_requests_def valid_examples Let_def
        example_env_def answers_def one_call_def no_call_def body_def received_def
        spec_classify_def CURLE_OK_def CURLE_REMOTE_FILE_NOT_FOUND_def)
  then show ?thesis
    using stations_output_in_order [OF h, of False True "[''KJFK'', ''BOGUS1'', ''lax'']" _ "''t''"] g
    by simp
qed

theorem partial_transfer_counterexample:
  "spec_classify 28 200 = TransportError
   \<and> main (example_env True [one_call ''METAR KJFK 03'' 13 28 200]) [] [''KJFK''] =
       (\<lparr>stdout = ''METAR KJFK 03'',
         stderr = [''transfer failed'',
                   ''Unable to fetch information for station ID '' @ [CHR 0x22] @ ''KJFK''
                     @ [CHR 0x22]],
         requests = [station_url METAR ''KJFK'']\<rparr>,
        Returned EX_OK)"
proof -
  let ?e = "example_env True [one_call ''METAR KJFK 03'' 13 28 200]"
  have "station_iteration ?e False False ''KJFK'' \<lparr>stdout = [], stderr = [], requests = []\<rparr> =
      Inr \<lparr>stdout = ''METAR KJFK 03'',
         stderr = [''transfer failed'',
                   ''Unable to fetch information for station ID '' @ [CHR 0x22] @ ''KJFK''
                     @ [CHR 0x22]],
         requests = [station_url METAR ''KJFK'']\<rparr>"
    by (simp add: station_iteration_valid [OF valid_examples(1)] curl_easy_perform_def
        example_env_def answers_def one_call_def printed_def printData_def cstr_def NUL_def
        primary_kind_def CURLE_OK_def CURLE_REMOTE_FILE_NOT_FOUND_def HTTP_RESPONSE_NOT_FOUND_def
        warnx_def)
  then have "main ?e [] [''KJFK''] =
      (\<lparr>stdout = ''METAR KJFK 03'',
         stderr = [''transfer failed'',
                   ''Unable to fetch information for station ID '' @ [CHR 0x22] @ ''KJFK''
                     @ [CHR 0x22]],
         requests = [station_url METAR ''KJFK'']\<rparr>,
        Returned EX_OK)"
    by (simp add: main_def Let_def example_env_def)
  then show ?thesis
    by (simp add: spec_classify_def CURLE_OK_def CURLE_REMOTE_FILE_NOT_FOUND_def)
qed

end
